theory Spec2Isabelle
  imports Complex_Main
begin

section \<open>Values exchanged with the outside world\<close>

text \<open>
  JSON values as Python sees them after \<^verbatim>\<open>request.get_json()\<close>, and the dictionaries the
  tools return. A dictionary is the list of its items (keys distinct), read with
  \<open>map_of\<close>. Numbers are rationals: only whether a number is zero is ever looked at.
\<close>

datatype json =
    JNull
  | JBool bool
  | JNum rat
  | JStr string
  | JArr "json list"
  | JObj "(string \<times> json) list"

text \<open>Python truthiness (\<^verbatim>\<open>not x\<close>, \<^verbatim>\<open>if x\<close>).\<close>

fun truthy :: "json \<Rightarrow> bool" where
  "truthy JNull = False"
| "truthy (JBool b) = b"
| "truthy (JNum n) = (n \<noteq> 0)"
| "truthy (JStr s) = (s \<noteq> [])"
| "truthy (JArr xs) = (xs \<noteq> [])"
| "truthy (JObj kvs) = (kvs \<noteq> [])"

text \<open>Exceptions are values: the class and \<^verbatim>\<open>str(e)\<close>.\<close>

datatype exn_kind =
    IndexError | KeyError | TypeError | AttributeError | UnboundLocalError
  | ValueError | ValidationError | EOFError | DatabaseError | ModelInvocationError
  | GraphRecursionError | HTTPException

datatype exn = Exn exn_kind string

fun str_exn :: "exn \<Rightarrow> string" where
  "str_exn (Exn k m) = m"

text \<open>\<^verbatim>\<open>str.lower()\<close> on the ASCII keywords that \<^verbatim>\<open>get_type()\<close> returns.\<close>

definition lower_char :: "char \<Rightarrow> char" where
  "lower_char c =
     (case map_of (zip ''ABCDEFGHIJKLMNOPQRSTUVWXYZ'' ''abcdefghijklmnopqrstuvwxyz'') c of
        Some l \<Rightarrow> l
      | None \<Rightarrow> c)"

definition lower :: "string \<Rightarrow> string" where
  "lower s = map lower_char s"

subsection \<open>Messages and agent state\<close>

record tool_call =
  tc_name :: string
  tc_args :: "(string \<times> json) list"
  tc_id :: string

datatype message =
    SystemMessage json
  | HumanMessage json
  | AIMessage json "tool_call list"
  | ToolMessage json string string

text \<open>
  \<^verbatim>\<open>AgentState\<close> is used through its \<^verbatim>\<open>messages\<close> only (\<^verbatim>\<open>number_of_steps\<close> is never read
  or written), so a state is the list of its messages. Below, \<^verbatim>\<open>message.content\<close>, and
  for a tool message also its name and \<^verbatim>\<open>tool_call_id\<close>.
\<close>

fun content :: "message \<Rightarrow> json" where
  "content (SystemMessage c) = c"
| "content (HumanMessage c) = c"
| "content (AIMessage c tcs) = c"
| "content (ToolMessage c n i) = c"

fun tool_message_id :: "message \<Rightarrow> string option" where
  "tool_message_id (ToolMessage c n i) = Some i"
| "tool_message_id _ = None"

fun tool_message_name :: "message \<Rightarrow> string option" where
  "tool_message_name (ToolMessage c n i) = Some n"
| "tool_message_name _ = None"

text \<open>
  The process state outside the Python heap: the database, the connections that are
  open (by handle), how many were ever opened, the console input still unread, how
  often the model was invoked, and how often the clock was read.
\<close>

record 'db world =
  db :: 'db
  open_conns :: "nat list"
  conn_count :: nat
  stdin :: "string list"
  llm_calls :: nat
  now_calls :: nat

text \<open>
  The libraries the program calls, as parameters.
  \<^item> \<open>sqlparse_types q\<close>: \<^verbatim>\<open>[s.get_type() for s in sqlparse.parse(q)]\<close>;
  \<^item> \<open>sqlite_connect d path\<close>: the error \<^verbatim>\<open>sqlite3.connect(path)\<close> raises, if any;
  \<^item> \<open>sqlite_execute d path q\<close>: \<^verbatim>\<open>cursor.execute(q)\<close> then \<^verbatim>\<open>cursor.fetchall()\<close>:
    the rows or the exception, and the database afterwards;
  \<^item> \<open>model_invoke k msgs\<close>: the \<open>k\<close>-th \<^verbatim>\<open>model.invoke\<close> of the process, retries
    included: content and tool calls of the response, or the exception;
  \<^item> \<open>py_str\<close>: Python's \<^verbatim>\<open>str()\<close> on a value that is not a string;
  \<^item> \<open>now_iso k\<close>: \<^verbatim>\<open>datetime.now().isoformat()\<close> at the \<open>k\<close>-th reading of the clock;
  \<^item> \<open>recursion_limit\<close>: LangGraph's step limit of one run (25 unless configured): a
    run that has executed that many nodes raises \<^verbatim>\<open>GraphRecursionError\<close>.
\<close>

record 'db env =
  sqlparse_types :: "string \<Rightarrow> string list"
  sqlite_connect :: "'db \<Rightarrow> string \<Rightarrow> exn option"
  sqlite_execute :: "'db \<Rightarrow> string \<Rightarrow> string \<Rightarrow> (exn + json) \<times> 'db"
  model_invoke :: "nat \<Rightarrow> message list \<Rightarrow> exn + (json \<times> tool_call list)"
  py_str :: "json \<Rightarrow> string"
  now_iso :: "nat \<Rightarrow> string"
  recursion_limit :: nat

definition str_of :: "'db env \<Rightarrow> json \<Rightarrow> string" where
  "str_of env j = (case j of JStr s \<Rightarrow> s | _ \<Rightarrow> py_str env j)"

section \<open>sql_agent.py: the tools\<close>

text \<open>\<^verbatim>\<open>sqlite3.connect\<close>: a new handle, open until closed.\<close>

definition connect :: "'db env \<Rightarrow> string \<Rightarrow> 'db world \<Rightarrow> (exn + nat) \<times> 'db world" where
  "connect env path w =
     (case sqlite_connect env (db w) path of
        Some e \<Rightarrow> (Inl e, w)
      | None \<Rightarrow> (Inr (conn_count w),
                 w\<lparr>open_conns := conn_count w # open_conns w, conn_count := Suc (conn_count w)\<rparr>))"

definition execute_fetchall ::
  "'db env \<Rightarrow> string \<Rightarrow> string \<Rightarrow> 'db world \<Rightarrow> (exn + json) \<times> 'db world" where
  "execute_fetchall env path q w =
     (case sqlite_execute env (db w) path q of (r, d) \<Rightarrow> (r, w\<lparr>db := d\<rparr>))"

definition conn_close :: "nat \<Rightarrow> 'db world \<Rightarrow> 'db world" where
  "conn_close h w = w\<lparr>open_conns := remove1 h (open_conns w)\<rparr>"

definition titanic_db :: string where
  "titanic_db = ''data/titanic.db''"

definition finance_db :: string where
  "finance_db = ''data/aug_personal_transactions_with_UserId.db''"

definition read_only_error :: json where
  "read_only_error = JObj [(''error'', JStr ''Only read-only queries are supported'')]"

definition get_human_input :: "'db env \<Rightarrow> string \<Rightarrow> 'db world \<Rightarrow> (exn + json) \<times> 'db world" where
  "get_human_input env prompt w =
     (case stdin w of
        [] \<Rightarrow> (Inr (JObj [(''error'', JStr (''Failed to get user input: '' @ ''EOF when reading a line''))]), w)
      | user_input # rest \<Rightarrow> (Inr (JObj [(''user_input'', JStr user_input)]), w\<lparr>stdin := rest\<rparr>))"

definition execute_titanic_sql_query ::
  "'db env \<Rightarrow> string \<Rightarrow> 'db world \<Rightarrow> (exn + json) \<times> 'db world" where
  "execute_titanic_sql_query env query w =
     (case sqlparse_types env query of
        [] \<Rightarrow> (Inl (Exn IndexError ''tuple index out of range''), w)
      | t # _ \<Rightarrow>
          if lower t = ''select'' then
            (case connect env titanic_db w of
               (Inl e, w1) \<Rightarrow> (Inl e, w1)
             | (Inr conn, w1) \<Rightarrow>
                 (case execute_fetchall env titanic_db query w1 of
                    (Inl e, w2) \<Rightarrow> (Inl e, w2)
                  | (Inr result, w2) \<Rightarrow> (Inr (JObj [(''result'', result)]), conn_close conn w2)))
          else (Inr read_only_error, w))"

definition execute_finance_sql_query ::
  "'db env \<Rightarrow> string \<Rightarrow> 'db world \<Rightarrow> (exn + json) \<times> 'db world" where
  "execute_finance_sql_query env query w =
     (case sqlparse_types env query of
        [] \<Rightarrow> (Inl (Exn IndexError ''tuple index out of range''), w)
      | t # _ \<Rightarrow>
          if lower t = ''select'' then
            (case connect env finance_db w of
               (Inl e, w1) \<Rightarrow> (Inl e, w1)
             | (Inr conn, w1) \<Rightarrow>
                 (case execute_fetchall env finance_db query w1 of
                    (Inl e, w2) \<Rightarrow> (Inl e, w2)
                  | (Inr result, w2) \<Rightarrow> (Inr (JObj [(''result'', result)]), conn_close conn w2)))
          else (Inr read_only_error, w))"

definition get_table_names :: "'db env \<Rightarrow> 'db world \<Rightarrow> (exn + json) \<times> 'db world" where
  "get_table_names env w =
     (case connect env finance_db w of
        (Inl e, w1) \<Rightarrow> (Inl e, w1)
      | (Inr conn, w1) \<Rightarrow>
          (case execute_fetchall env finance_db
                  (''SELECT name FROM sqlite_master WHERE type='' @ [CHR 0x27] @ ''table'' @ [CHR 0x27] @ '';'') w1 of
             (Inl e, w2) \<Rightarrow> (Inl e, w2)
           | (Inr result, w2) \<Rightarrow> (Inr (JObj [(''result'', result)]), conn_close conn w2)))"

text \<open>The two tools below catch every exception and return it as an error payload.\<close>

definition get_table_columns :: "'db env \<Rightarrow> string \<Rightarrow> 'db world \<Rightarrow> (exn + json) \<times> 'db world" where
  "get_table_columns env table_name w =
     (case connect env finance_db w of
        (Inl e, w1) \<Rightarrow> (Inr (JObj [(''error'', JStr (''Failed to get table columns: '' @ str_exn e))]), w1)
      | (Inr conn, w1) \<Rightarrow>
          (case execute_fetchall env finance_db (''PRAGMA table_info('' @ table_name @ '')'') w1 of
             (Inl e, w2) \<Rightarrow> (Inr (JObj [(''error'', JStr (''Failed to get table columns: '' @ str_exn e))]), w2)
           | (Inr result, w2) \<Rightarrow> (Inr (JObj [(''result'', result)]), conn_close conn w2)))"

definition get_table_row_example :: "'db env \<Rightarrow> string \<Rightarrow> 'db world \<Rightarrow> (exn + json) \<times> 'db world" where
  "get_table_row_example env table_name w =
     (case connect env finance_db w of
        (Inl e, w1) \<Rightarrow> (Inr (JObj [(''error'', JStr (''Failed to get table row example: '' @ str_exn e))]), w1)
      | (Inr conn, w1) \<Rightarrow>
          (case execute_fetchall env finance_db (''SELECT * FROM '' @ table_name @ '' LIMIT 1'') w1 of
             (Inl e, w2) \<Rightarrow> (Inr (JObj [(''error'', JStr (''Failed to get table row example: '' @ str_exn e))]), w2)
           | (Inr result, w2) \<Rightarrow> (Inr (JObj [(''result'', result)]), conn_close conn w2)))"

subsection \<open>The tool table and the tool node\<close>

datatype tool =
    GetHumanInput | ExecuteTitanicSqlQuery | ExecuteFinanceSqlQuery
  | GetTableNames | GetTableColumns | GetTableRowExample

fun tool_name :: "tool \<Rightarrow> string" where
  "tool_name GetHumanInput = ''get_human_input''"
| "tool_name ExecuteTitanicSqlQuery = ''execute_titanic_sql_query''"
| "tool_name ExecuteFinanceSqlQuery = ''execute_finance_sql_query''"
| "tool_name GetTableNames = ''get_table_names''"
| "tool_name GetTableColumns = ''get_table_columns''"
| "tool_name GetTableRowExample = ''get_table_row_example''"

definition tools :: "tool list" where
  "tools = [GetHumanInput, ExecuteTitanicSqlQuery, ExecuteFinanceSqlQuery,
            GetTableNames, GetTableColumns, GetTableRowExample]"

definition tools_by_name :: "string \<Rightarrow> tool option" where
  "tools_by_name = map_of (map (\<lambda>t. (tool_name t, t)) tools)"

text \<open>
  The check of one \<^verbatim>\<open>str\<close> field of an \<^verbatim>\<open>args_schema\<close>: the field must be there and be
  a string; other keys are ignored. The text of the validation error is shortened.
\<close>

definition str_arg :: "(string \<times> json) list \<Rightarrow> string \<Rightarrow> exn + string" where
  "str_arg args k =
     (case map_of args k of
        None \<Rightarrow> Inl (Exn ValidationError (k @ '': Field required''))
      | Some (JStr s) \<Rightarrow> Inr s
      | Some _ \<Rightarrow> Inl (Exn ValidationError (k @ '': Input should be a valid string'')))"

text \<open>\<^verbatim>\<open>tool.invoke(args)\<close>: validate against the schema, then call the function.\<close>

fun tool_invoke ::
  "'db env \<Rightarrow> tool \<Rightarrow> (string \<times> json) list \<Rightarrow> 'db world \<Rightarrow> (exn + json) \<times> 'db world" where
  "tool_invoke env GetHumanInput args w =
     (case str_arg args ''prompt'' of Inl e \<Rightarrow> (Inl e, w) | Inr p \<Rightarrow> get_human_input env p w)"
| "tool_invoke env ExecuteTitanicSqlQuery args w =
     (case str_arg args ''query'' of Inl e \<Rightarrow> (Inl e, w) | Inr q \<Rightarrow> execute_titanic_sql_query env q w)"
| "tool_invoke env ExecuteFinanceSqlQuery args w =
     (case str_arg args ''query'' of Inl e \<Rightarrow> (Inl e, w) | Inr q \<Rightarrow> execute_finance_sql_query env q w)"
| "tool_invoke env GetTableNames args w = get_table_names env w"
| "tool_invoke env GetTableColumns args w =
     (case str_arg args ''table_name'' of Inl e \<Rightarrow> (Inl e, w) | Inr t \<Rightarrow> get_table_columns env t w)"
| "tool_invoke env GetTableRowExample args w =
     (case str_arg args ''table_name'' of Inl e \<Rightarrow> (Inl e, w) | Inr t \<Rightarrow> get_table_row_example env t w)"

text \<open>\<^verbatim>\<open>state["messages"][-1].tool_calls\<close>: only an AI message has the attribute.\<close>

definition last_tool_calls :: "message list \<Rightarrow> exn + tool_call list" where
  "last_tool_calls messages =
     (if messages = [] then Inl (Exn IndexError ''list index out of range'')
      else (case last messages of
              AIMessage c tcs \<Rightarrow> Inr tcs
            | _ \<Rightarrow> Inl (Exn AttributeError ''object has no attribute tool_calls'')))"

text \<open>
  The loop of \<^verbatim>\<open>call_tool\<close>. A dictionary given as the content of a tool message is
  stored as its \<^verbatim>\<open>str()\<close>.
\<close>

fun call_tool_loop ::
  "'db env \<Rightarrow> tool_call list \<Rightarrow> message list \<Rightarrow> 'db world \<Rightarrow> (exn + message list) \<times> 'db world" where
  "call_tool_loop env [] outputs w = (Inr outputs, w)"
| "call_tool_loop env (tc # rest) outputs w =
     (case tools_by_name (tc_name tc) of
        None \<Rightarrow> (Inl (Exn KeyError ([CHR 0x27] @ tc_name tc @ [CHR 0x27])), w)
      | Some t \<Rightarrow>
          (case tool_invoke env t (tc_args tc) w of
             (Inl e, w1) \<Rightarrow> (Inl e, w1)
           | (Inr tool_result, w1) \<Rightarrow>
               call_tool_loop env rest
                 (outputs @ [ToolMessage (JStr (str_of env tool_result)) (tc_name tc) (tc_id tc)]) w1))"

definition call_tool :: "'db env \<Rightarrow> message list \<Rightarrow> 'db world \<Rightarrow> (exn + message list) \<times> 'db world" where
  "call_tool env messages w =
     (case last_tool_calls messages of
        Inl e \<Rightarrow> (Inl e, w)
      | Inr tcs \<Rightarrow> call_tool_loop env tcs [] w)"

subsection \<open>The model node and the conditional edge\<close>

definition system_prompt :: string where
  "system_prompt =
     ''You are a helpful AI assistant with access to various tools including:'' @ [CHR 0x0A] @
     ''        - SQL query execution on Titanic dataset'' @ [CHR 0x0A] @
     ''        - SQL query execution on finance transaction dataset'' @ [CHR 0x0A] @
     ''        - Database exploration tools (table names, columns, sample data)'' @ [CHR 0x0A] @
     [CHR 0x0A] @
     ''        When users ask questions, use the appropriate tools to provide accurate and helpful responses. '' @ [CHR 0x0A] @
     ''        For SQL queries, always use the correct database (Titanic or aug_personal_transactions_with_userid) based on the context.'' @ [CHR 0x0A] @
     ''        Be concise but thorough in your explanations.''"

definition call_model :: "'db env \<Rightarrow> message list \<Rightarrow> 'db world \<Rightarrow> (exn + message list) \<times> 'db world" where
  "call_model env messages w =
     (let all_messages = SystemMessage (JStr system_prompt) # messages;
          w1 = w\<lparr>llm_calls := Suc (llm_calls w)\<rparr>
      in case model_invoke env (llm_calls w) all_messages of
           Inl e \<Rightarrow> (Inl e, w1)
         | Inr (c, tcs) \<Rightarrow> (Inr [AIMessage c tcs], w1))"

definition should_continue :: "message list \<Rightarrow> exn + string" where
  "should_continue messages =
     (case last_tool_calls messages of
        Inl e \<Rightarrow> Inl e
      | Inr tcs \<Rightarrow> if tcs = [] then Inr ''end'' else Inr ''continue'')"

section \<open>app.py: the graph\<close>

text \<open>
  The nodes \<^verbatim>\<open>"llm"\<close> and \<^verbatim>\<open>"tools"\<close> and LangGraph's \<^verbatim>\<open>END\<close>; the mapping given to
  \<^verbatim>\<open>add_conditional_edges\<close> after \<^verbatim>\<open>"llm"\<close>; the edge from \<^verbatim>\<open>"tools"\<close> back to
  \<^verbatim>\<open>"llm"\<close>.
\<close>

datatype node = LLM | TOOLS | END

definition conditional_edges :: "string \<Rightarrow> node option" where
  "conditional_edges = map_of [(''continue'', TOOLS), (''end'', END)]"

definition after_llm :: "message list \<Rightarrow> exn + node" where
  "after_llm messages =
     (case should_continue messages of
        Inl e \<Rightarrow> Inl e
      | Inr r \<Rightarrow>
          (case conditional_edges r of
             None \<Rightarrow> Inl (Exn KeyError ([CHR 0x27] @ r @ [CHR 0x27]))
           | Some n \<Rightarrow> Inr n))"

definition after_tools :: node where
  "after_tools = LLM"

text \<open>
  What the \<^verbatim>\<open>add_messages\<close> reducer makes of the tuples in the graph's input: a message
  by role, whose content must be a string or a list of strings and dictionaries.
\<close>

fun valid_content :: "json \<Rightarrow> bool" where
  "valid_content (JStr s) = True"
| "valid_content (JArr xs) = list_all (\<lambda>x. case x of JStr _ \<Rightarrow> True | JObj _ \<Rightarrow> True | _ \<Rightarrow> False) xs"
| "valid_content _ = False"

definition convert_to_message :: "string \<times> json \<Rightarrow> exn + message" where
  "convert_to_message rc =
     (case rc of (role, c) \<Rightarrow>
        if role = ''user'' then
          (if valid_content c then Inr (HumanMessage c)
           else Inl (Exn ValidationError ''content: Input should be a valid string or list''))
        else if role = ''assistant'' then
          (if valid_content c then Inr (AIMessage c [])
           else Inl (Exn ValidationError ''content: Input should be a valid string or list''))
        else Inl (Exn ValueError (''Unexpected message type: '' @ role)))"

fun convert_to_messages :: "(string \<times> json) list \<Rightarrow> exn + message list" where
  "convert_to_messages [] = Inr []"
| "convert_to_messages (rc # rest) =
     (case convert_to_message rc of
        Inl e \<Rightarrow> Inl e
      | Inr m \<Rightarrow> (case convert_to_messages rest of Inl e \<Rightarrow> Inl e | Inr ms \<Rightarrow> Inr (m # ms)))"

text \<open>
  One run of the compiled graph from a node, with the number of steps that are left.
  The result is the list of states that \<^verbatim>\<open>stream_mode="values"\<close> yields (the messages
  after each node) and the exception that ended the run, if one did. LangGraph tests the
  step limit before it looks for the next node: when no step is left the run raises,
  also when the last node has routed to \<^verbatim>\<open>END\<close>. So a run ends normally only if it needs
  fewer node executions than the limit.
\<close>

fun run_graph ::
  "'db env \<Rightarrow> nat \<Rightarrow> node \<Rightarrow> message list \<Rightarrow> 'db world
     \<Rightarrow> (message list list \<times> exn option) \<times> 'db world" where
  "run_graph env 0 node messages w =
     (([], Some (Exn GraphRecursionError ''Recursion limit reached without hitting a stop condition'')), w)"
| "run_graph env (Suc n) END messages w = (([], None), w)"
| "run_graph env (Suc n) LLM messages w =
     (case call_model env messages w of
        (Inl e, w1) \<Rightarrow> (([], Some e), w1)
      | (Inr out, w1) \<Rightarrow>
          (case after_llm (messages @ out) of
             Inl e \<Rightarrow> (([messages @ out], Some e), w1)
           | Inr nxt \<Rightarrow>
               (case run_graph env n nxt (messages @ out) w1 of
                  ((states, r), w2) \<Rightarrow> (((messages @ out) # states, r), w2))))"
| "run_graph env (Suc n) TOOLS messages w =
     (case call_tool env messages w of
        (Inl e, w1) \<Rightarrow> (([], Some e), w1)
      | (Inr out, w1) \<Rightarrow>
          (case run_graph env n after_tools (messages @ out) w1 of
             ((states, r), w2) \<Rightarrow> (((messages @ out) # states, r), w2)))"

text \<open>
  \<^verbatim>\<open>graph.stream(inputs, stream_mode="values")\<close>: the input state is yielded first, then
  the state after each node, starting at the entry point \<^verbatim>\<open>"llm"\<close>.
\<close>

definition graph_stream ::
  "'db env \<Rightarrow> (string \<times> json) list \<Rightarrow> 'db world \<Rightarrow> (message list list \<times> exn option) \<times> 'db world" where
  "graph_stream env inputs w =
     (case convert_to_messages inputs of
        Inl e \<Rightarrow> (([], Some e), w)
      | Inr messages \<Rightarrow>
          (case run_graph env (recursion_limit env) LLM messages w of
             ((states, r), w1) \<Rightarrow> ((messages # states, r), w1)))"

section \<open>app.py: the chat endpoint\<close>

text \<open>\<^verbatim>\<open>data.get(key, default)\<close>: only a dictionary has \<^verbatim>\<open>get\<close>.\<close>

fun dict_get :: "json \<Rightarrow> string \<Rightarrow> json \<Rightarrow> exn + json" where
  "dict_get (JObj kvs) k d = (case map_of kvs k of None \<Rightarrow> Inr d | Some v \<Rightarrow> Inr v)"
| "dict_get _ k d = Inl (Exn AttributeError ''object has no attribute get'')"

text \<open>\<^verbatim>\<open>msg[key]\<close> with a string key.\<close>

fun subscript :: "json \<Rightarrow> string \<Rightarrow> exn + json" where
  "subscript (JObj kvs) k =
     (case map_of kvs k of None \<Rightarrow> Inl (Exn KeyError ([CHR 0x27] @ k @ [CHR 0x27])) | Some v \<Rightarrow> Inr v)"
| "subscript (JStr s) k = Inl (Exn TypeError ''string indices must be integers'')"
| "subscript (JArr xs) k = Inl (Exn TypeError ''list indices must be integers or slices, not str'')"
| "subscript _ k = Inl (Exn TypeError ''object is not subscriptable'')"

text \<open>\<^verbatim>\<open>for msg in conversation_history\<close>: what the loop visits.\<close>

fun iterate :: "json \<Rightarrow> exn + json list" where
  "iterate (JArr xs) = Inr xs"
| "iterate (JStr s) = Inr (map (\<lambda>c. JStr [c]) s)"
| "iterate (JObj kvs) = Inr (map (\<lambda>kv. JStr (fst kv)) kvs)"
| "iterate _ = Inl (Exn TypeError ''object is not iterable'')"

fun convert_history_loop ::
  "json list \<Rightarrow> (string \<times> json) list \<Rightarrow> exn + (string \<times> json) list" where
  "convert_history_loop [] messages = Inr messages"
| "convert_history_loop (msg # rest) messages =
     (case subscript msg ''type'' of
        Inl e \<Rightarrow> Inl e
      | Inr t \<Rightarrow>
          if t = JStr ''user'' then
            (case subscript msg ''content'' of
               Inl e \<Rightarrow> Inl e
             | Inr c \<Rightarrow> convert_history_loop rest (messages @ [(''user'', c)]))
          else if t = JStr ''agent'' then
            (case subscript msg ''content'' of
               Inl e \<Rightarrow> Inl e
             | Inr c \<Rightarrow> convert_history_loop rest (messages @ [(''assistant'', c)]))
          else convert_history_loop rest messages)"

definition convert_history :: "json \<Rightarrow> exn + (string \<times> json) list" where
  "convert_history conversation_history =
     (case iterate conversation_history of
        Inl e \<Rightarrow> Inl e
      | Inr msgs \<Rightarrow> convert_history_loop msgs [])"

definition agent_entry :: "string \<Rightarrow> string \<Rightarrow> json" where
  "agent_entry c ts = JObj [(''type'', JStr ''agent''), (''content'', JStr c), (''timestamp'', JStr ts)]"

text \<open>
  The body of the loop over the streamed states: \<open>k\<close> counts the readings of the clock.
\<close>

fun collect ::
  "'db env \<Rightarrow> message list list \<Rightarrow> json list \<times> string \<Rightarrow> nat \<Rightarrow> (json list \<times> string) \<times> nat" where
  "collect env [] acc k = (acc, k)"
| "collect env (messages # states) acc k =
     (if messages \<noteq> [] \<and> truthy (content (last messages)) then
        collect env states
          (fst acc @ [agent_entry (str_of env (content (last messages))) (now_iso env k)],
           str_of env (content (last messages)))
          (Suc k)
      else collect env states acc k)"

text \<open>The same loop in the recovery pass keeps the last content only.\<close>

fun collect_retry :: "'db env \<Rightarrow> message list list \<Rightarrow> string \<Rightarrow> string" where
  "collect_retry env [] retry_response = retry_response"
| "collect_retry env (messages # states) retry_response =
     (if messages \<noteq> [] \<and> truthy (content (last messages)) then
        collect_retry env states (str_of env (content (last messages)))
      else collect_retry env states retry_response)"

definition error_context :: "string \<Rightarrow> string \<Rightarrow> string" where
  "error_context user_message error_msg =
     [CHR 0x0A] @
     ''The user asked: '' @ [CHR 0x22] @ user_message @ [CHR 0x22] @ [CHR 0x0A] @
     [CHR 0x0A] @
     ''But an error occurred: '' @ error_msg @ [CHR 0x0A] @
     [CHR 0x0A] @
     ''Please provide a helpful response to the user'' @ [CHR 0x27] @
       ''s original question, taking into account this error context. '' @ [CHR 0x0A] @
     ''If the error suggests a missing dependency or configuration issue, please explain what might be needed.'' @ [CHR 0x0A] @
     ''If it'' @ [CHR 0x27] @
       ''s a tool-specific error, try to answer the question using available information.'' @ [CHR 0x0A]"

definition apology :: string where
  "apology = ''I encountered an issue while processing your request, but I'' @ [CHR 0x27] @
             ''ll try to help: ''"

definition server_error :: "string \<Rightarrow> nat \<times> json" where
  "server_error error_msg =
     (500, JObj [(''error'', JStr (''I encountered an error: '' @ error_msg @
        ''. Please try rephrasing your question or check if all dependencies are properly installed.''))])"

text \<open>
  The \<^verbatim>\<open>except\<close> block. \<open>user_message\<close> is \<open>None\<close> when the exception came before the
  variable was bound: then building the error context raises, and the inner handler
  answers.
\<close>

definition recover ::
  "'db env \<Rightarrow> exn \<Rightarrow> json option \<Rightarrow> 'db world \<Rightarrow> (nat \<times> json) \<times> 'db world" where
  "recover env e user_message w =
     (let error_msg = str_exn e in
      case user_message of
        None \<Rightarrow> (server_error error_msg, w)
      | Some um \<Rightarrow>
          (case graph_stream env [(''user'', JStr (error_context (str_of env um) error_msg))] w of
             ((states, Some retry_error), w1) \<Rightarrow> (server_error error_msg, w1)
           | ((states, None), w1) \<Rightarrow>
               (let retry_response = collect_retry env states [] in
                if retry_response \<noteq> [] then
                  ((200, JObj [(''response'', JStr (apology @ retry_response)),
                               (''all_messages'',
                                  JArr [agent_entry retry_response (now_iso env (now_calls w1))])]),
                   w1\<lparr>now_calls := Suc (now_calls w1)\<rparr>)
                else (server_error error_msg, w1))))"

text \<open>
  The handler of \<^verbatim>\<open>POST /chat\<close>. Its input is what \<^verbatim>\<open>request.get_json()\<close> does: the
  parsed body, or the exception it raises. The result is the status and the JSON body.
\<close>

definition chat ::
  "'db env \<Rightarrow> exn + json \<Rightarrow> 'db world \<Rightarrow> (nat \<times> json) \<times> 'db world" where
  "chat env request_json w =
     (case request_json of
        Inl e \<Rightarrow> recover env e None w
      | Inr data \<Rightarrow>
          (case dict_get data ''message'' (JStr []) of
             Inl e \<Rightarrow> recover env e None w
           | Inr user_message \<Rightarrow>
               (case dict_get data ''conversation_history'' (JArr []) of
                  Inl e \<Rightarrow> recover env e (Some user_message) w
                | Inr conversation_history \<Rightarrow>
                    if \<not> truthy user_message then
                      ((400, JObj [(''error'', JStr ''No message provided'')]), w)
                    else
                      (case convert_history conversation_history of
                         Inl e \<Rightarrow> recover env e (Some user_message) w
                       | Inr messages \<Rightarrow>
                           (case graph_stream env (messages @ [(''user'', user_message)]) w of
                              ((states, r), w1) \<Rightarrow>
                                (case collect env states ([], []) (now_calls w1) of
                                   ((all_messages, final_response), k) \<Rightarrow>
                                     (case r of
                                        Some e \<Rightarrow> recover env e (Some user_message) (w1\<lparr>now_calls := k\<rparr>)
                                      | None \<Rightarrow>
                                          ((200, JObj [(''response'', JStr final_response),
                                                       (''all_messages'', JArr all_messages)]),
                                           w1\<lparr>now_calls := k\<rparr>))))))))"

section \<open>A test double for the libraries\<close>

text \<open>
  A small environment on which the definitions can be run. The database is a number
  (its version). \<^verbatim>\<open>sqlparse\<close> finds no statement in the empty text, and otherwise one
  statement, whose type is read off the first keyword (\<^verbatim>\<open>SELECT\<close>, \<^verbatim>\<open>DROP\<close>, or unknown).
  \<^verbatim>\<open>str()\<close> of a dictionary shows its first key only. Only \<^verbatim>\<open>SELECT 1\<close> executes; every other statement fails on a missing table. The model
  first asks for \<^verbatim>\<open>SELECT 1\<close> on the Titanic database and then answers.
\<close>

definition stub_env :: "nat env" where
  "stub_env = \<lparr>
     sqlparse_types = (\<lambda>q. if q = [] then [] else if take 6 q = ''SELECT'' then [''SELECT'']
                            else if take 4 q = ''DROP'' then [''DROP''] else [''UNKNOWN'']),
     sqlite_connect = (\<lambda>d p. None),
     sqlite_execute = (\<lambda>d p q. if q = ''SELECT 1'' then (Inr (JArr [JArr [JNum 1]]), d)
                                 else (Inl (Exn DatabaseError ''no such table: missing''), d)),
     model_invoke = (\<lambda>k msgs.
        if k = 0 then
          Inr (JStr [], [\<lparr>tc_name = ''execute_titanic_sql_query'',
                          tc_args = [(''query'', JStr ''SELECT 1'')], tc_id = ''call_1''\<rparr>])
        else Inr (JStr ''One.'', [])),
     py_str = (\<lambda>j. case j of JObj ((k, v) # kvs) \<Rightarrow> ''{'' @ k @ '': ...}'' | _ \<Rightarrow> ''...''),
     now_iso = (\<lambda>k. replicate k (CHR ''i'')),
     recursion_limit = 25 \<rparr>"

text \<open>The same, with a model that fails on its first call and then answers nothing.\<close>

definition silent_env :: "nat env" where
  "silent_env = stub_env\<lparr>model_invoke := (\<lambda>k msgs.
     if k = 0 then Inl (Exn ModelInvocationError ''quota exceeded'') else Inr (JStr [], []))\<rparr>"

definition idle :: "nat world" where
  "idle = \<lparr>db = 0, open_conns = [], conn_count = 0, stdin = [], llm_calls = 0, now_calls = 0\<rparr>"

definition two_calls :: "tool_call list" where
  "two_calls =
     [\<lparr>tc_name = ''execute_finance_sql_query'',
       tc_args = [(''query'', JStr ''DROP TABLE transactions'')], tc_id = ''call_a''\<rparr>,
      \<lparr>tc_name = ''execute_titanic_sql_query'',
       tc_args = [(''query'', JStr ''SELECT 1'')], tc_id = ''call_b''\<rparr>]"

definition bad_then_good :: "tool_call list" where
  "bad_then_good =
     [\<lparr>tc_name = ''execute_titanic_sql_query'', tc_args = [], tc_id = ''call_a''\<rparr>,
      \<lparr>tc_name = ''execute_titanic_sql_query'',
       tc_args = [(''query'', JStr ''SELECT 1'')], tc_id = ''call_b''\<rparr>]"

section \<open>What the endpoint collects, said without the loop\<close>

text \<open>
  The test of the loop body on one streamed state, the contents the loop picks up from
  a list of states, and the entries made of them when the clock has been read \<open>k\<close>
  times before.
\<close>

definition shown :: "message list \<Rightarrow> bool" where
  "shown messages = (messages \<noteq> [] \<and> truthy (content (last messages)))"

definition collected_contents :: "'db env \<Rightarrow> message list list \<Rightarrow> string list" where
  "collected_contents env states = map (\<lambda>ms. str_of env (content (last ms))) (filter shown states)"

fun stamp :: "'db env \<Rightarrow> nat \<Rightarrow> string list \<Rightarrow> json list" where
  "stamp env k [] = []"
| "stamp env k (c # cs) = agent_entry c (now_iso env k) # stamp env (Suc k) cs"

text \<open>
  The shape of the states that a run yields after its nodes. After the model node the
  state is the one before with one AI message added. After the tool node the state
  before ended in an AI message with tool calls, and the state is that one with one
  tool message per call added, in the order of the calls. The two alternate, the model
  node first.
\<close>

definition model_step :: "message list \<Rightarrow> message list \<Rightarrow> bool" where
  "model_step before after =
     (take (length before) after = before \<and> length after = Suc (length before) \<and>
      (case last after of AIMessage c tcs \<Rightarrow> True | _ \<Rightarrow> False))"

definition tool_step :: "message list \<Rightarrow> message list \<Rightarrow> bool" where
  "tool_step before after =
     (case last_tool_calls before of
        Inl e \<Rightarrow> False
      | Inr tcs \<Rightarrow>
          tcs \<noteq> [] \<and> take (length before) after = before \<and>
          map tool_message_id (drop (length before) after) = map (\<lambda>tc. Some (tc_id tc)) tcs)"

fun follows :: "node \<Rightarrow> message list \<Rightarrow> message list list \<Rightarrow> bool" where
  "follows node before [] = True"
| "follows LLM before (s # states) = (model_step before s \<and> follows TOOLS s states)"
| "follows TOOLS before (s # states) = (tool_step before s \<and> follows LLM s states)"
| "follows END before (s # states) = False"

section \<open>Facts used in several places\<close>

lemmas tool_defs = call_tool_def last_tool_calls_def tools_by_name_def tools_def str_arg_def
  execute_titanic_sql_query_def execute_finance_sql_query_def get_table_names_def
  lower_def lower_char_def connect_def execute_fetchall_def conn_close_def str_of_def
  titanic_db_def finance_db_def read_only_error_def

text \<open>What the loop of the tool node adds to its accumulator when it runs to its end.\<close>

lemma call_tool_loop_outputs:
  "call_tool_loop env tcs acc w = (Inr outputs, w') \<Longrightarrow>
   \<exists>new. outputs = acc @ new \<and>
         map tool_message_id new = map (\<lambda>tc. Some (tc_id tc)) tcs \<and>
         map tool_message_name new = map (\<lambda>tc. Some (tc_name tc)) tcs"
proof (induction tcs arbitrary: acc w)
  case Nil
  then show ?case by simp
next
  case (Cons tc rest)
  from Cons.prems obtain t r w1 where
    inv: "tool_invoke env t (tc_args tc) w = (Inr r, w1)" and
    rec: "call_tool_loop env rest (acc @ [ToolMessage (JStr (str_of env r)) (tc_name tc) (tc_id tc)]) w1
            = (Inr outputs, w')"
    by (auto split: option.splits prod.splits sum.splits)
  from Cons.IH [OF rec] obtain new where
    "outputs = (acc @ [ToolMessage (JStr (str_of env r)) (tc_name tc) (tc_id tc)]) @ new"
    "map tool_message_id new = map (\<lambda>tc. Some (tc_id tc)) rest"
    "map tool_message_name new = map (\<lambda>tc. Some (tc_name tc)) rest"
    by blast
  then show ?case
    by (intro exI [of _ "ToolMessage (JStr (str_of env r)) (tc_name tc) (tc_id tc) # new"]) simp
qed

text \<open>A batch is run front to back: the calls after a failure are never reached.\<close>

lemma call_tool_loop_append:
  "call_tool_loop env (pre @ post) acc w =
     (case call_tool_loop env pre acc w of
        (Inl e, w1) \<Rightarrow> (Inl e, w1)
      | (Inr outputs, w1) \<Rightarrow> call_tool_loop env post outputs w1)"
  by (induction pre arbitrary: acc w) (auto split: option.splits prod.splits sum.splits)

lemmas graph_defs = graph_stream_def convert_to_message_def call_model_def after_llm_def
  should_continue_def conditional_edges_def after_tools_def

text \<open>The test double and the world at rest, field by field.\<close>

lemma stub_env_sel:
  "py_str stub_env (JObj ((k, v) # kvs)) = ''{'' @ k @ '': ...}''"
  "now_iso stub_env n = replicate n (CHR ''i'')"
  "recursion_limit stub_env = 25"
  "py_str silent_env = py_str stub_env"
  "now_iso silent_env = now_iso stub_env"
  "recursion_limit silent_env = 25"
  by (simp_all add: stub_env_def silent_env_def)

lemma idle_sel:
  "db idle = 0" "open_conns idle = []" "conn_count idle = 0" "stdin idle = []"
  "llm_calls idle = 0" "now_calls idle = 0"
  by (simp_all add: idle_def)

lemma convert_history_loop_append:
  "convert_history_loop (xs @ ys) acc =
     (case convert_history_loop xs acc of
        Inl e \<Rightarrow> Inl e
      | Inr acc' \<Rightarrow> convert_history_loop ys acc')"
  by (induction xs arbitrary: acc) (auto split: sum.splits)

lemma error_context_nonempty: "error_context u e \<noteq> []"
  by (simp add: error_context_def)

lemma collect_eq:
  "collect env states (acc, fin) k =
     ((acc @ stamp env k (collected_contents env states),
       if collected_contents env states = [] then fin else last (collected_contents env states)),
      k + length (collected_contents env states))"
proof (induction states arbitrary: acc fin k)
  case Nil
  then show ?case by (simp add: collected_contents_def)
next
  case (Cons ms states)
  show ?case
  proof (cases "shown ms")
    case True
    then have "collect env (ms # states) (acc, fin) k =
        collect env states (acc @ [agent_entry (str_of env (content (last ms))) (now_iso env k)],
                            str_of env (content (last ms))) (Suc k)"
      by (simp add: shown_def)
    with True show ?thesis
      by (simp add: Cons.IH collected_contents_def)
  next
    case False
    then have "collect env (ms # states) (acc, fin) k = collect env states (acc, fin) k"
      by (auto simp: shown_def)
    with False show ?thesis
      by (simp add: Cons.IH collected_contents_def)
  qed
qed

lemma collect_retry_eq:
  "collect_retry env states r =
     (if collected_contents env states = [] then r else last (collected_contents env states))"
proof (induction states arbitrary: r)
  case Nil
  then show ?case by (simp add: collected_contents_def)
next
  case (Cons ms states)
  then show ?case
    by (cases "shown ms") (auto simp: collected_contents_def shown_def)
qed

lemma stamp_nth:
  "i < length cs \<Longrightarrow> stamp env k cs ! i = agent_entry (cs ! i) (now_iso env (k + i))"
proof (induction cs arbitrary: k i)
  case Nil
  then show ?case by simp
next
  case (Cons c cs)
  then show ?case by (cases i) simp_all
qed

lemma length_stamp: "length (stamp env k cs) = length cs"
  by (induction cs arbitrary: k) simp_all

lemma collected_contents_last:
  assumes "states \<noteq> []" and "shown (last states)"
  shows "collected_contents env states \<noteq> [] \<and>
         last (collected_contents env states) = str_of env (content (last (last states)))"
proof -
  from assms(1) have "states = butlast states @ [last states]" by simp
  then have "filter shown states = filter shown (butlast states) @ [last states]"
    using assms(2) by (metis filter.simps(1,2) filter_append)
  then show ?thesis by (simp add: collected_contents_def)
qed

lemma convert_to_messages_last:
  "convert_to_messages (xs @ [(''user'', c)]) = Inr ms \<Longrightarrow> ms \<noteq> [] \<and> last ms = HumanMessage c"
proof (induction xs arbitrary: ms)
  case Nil
  then show ?case
    by (auto simp: convert_to_message_def split: if_splits)
next
  case (Cons x xs)
  from Cons.prems obtain m rest where
    "convert_to_messages (xs @ [(''user'', c)]) = Inr rest" and ms: "ms = m # rest"
    by (auto split: sum.splits)
  from Cons.IH [OF this(1)] ms show ?case by simp
qed

lemma after_llm_END:
  "after_llm xs = Inr END \<Longrightarrow> xs \<noteq> [] \<and> (\<exists>c. last xs = AIMessage c [])"
  by (auto simp: after_llm_def should_continue_def last_tool_calls_def conditional_edges_def
           split: sum.splits message.splits if_splits option.splits)

text \<open>A run that ends without an exception ends on an AI message with no tool call.\<close>

lemma run_graph_done:
  "run_graph env n node ms w = ((states, None), w') \<Longrightarrow> node \<noteq> END \<Longrightarrow>
   states \<noteq> [] \<and> last states \<noteq> [] \<and> (\<exists>c. last (last states) = AIMessage c [])"
proof (induction n arbitrary: node ms w states w')
  case 0
  then show ?case by simp
next
  case (Suc n)
  show ?case
  proof (cases node)
    case LLM
    with Suc.prems obtain out w1 nxt sts where
      cm: "call_model env ms w = (Inr out, w1)" and
      al: "after_llm (ms @ out) = Inr nxt" and
      rec: "run_graph env n nxt (ms @ out) w1 = ((sts, None), w')" and
      st: "states = (ms @ out) # sts"
      by (auto split: prod.splits sum.splits)
    show ?thesis
    proof (cases "nxt = END")
      case True
      with rec have "sts = []" by (cases n) simp_all
      with st after_llm_END [of "ms @ out"] al True show ?thesis by simp
    next
      case False
      from Suc.IH [OF rec False] st show ?thesis by simp
    qed
  next
    case TOOLS
    with Suc.prems obtain out w1 sts where
      rec: "run_graph env n LLM (ms @ out) w1 = ((sts, None), w')" and
      st: "states = (ms @ out) # sts"
      by (auto simp: after_tools_def split: prod.splits sum.splits)
    from Suc.IH [OF rec] st show ?thesis by simp
  next
    case END
    with Suc.prems show ?thesis by simp
  qed
qed

lemma graph_stream_done:
  assumes "graph_stream env inputs w = ((states, None), w1)"
  shows "states \<noteq> [] \<and> last states \<noteq> [] \<and> (\<exists>c. last (last states) = AIMessage c [])"
proof -
  from assms obtain ms0 sts where
    run: "run_graph env (recursion_limit env) LLM ms0 w = ((sts, None), w1)" and
    states: "states = ms0 # sts"
    by (auto simp: graph_stream_def split: sum.splits prod.splits)
  from run_graph_done [OF run] states show ?thesis by auto
qed

text \<open>The states of a run have the shape described by \<open>follows\<close>.\<close>

lemma call_model_out:
  "call_model env ms w = (Inr out, w1) \<Longrightarrow> \<exists>c tcs. out = [AIMessage c tcs]"
  by (auto simp: call_model_def Let_def split: sum.splits)

lemma after_llm_cases:
  "after_llm (ms @ [AIMessage c tcs]) = Inr nxt \<Longrightarrow>
   nxt = END \<and> tcs = [] \<or> nxt = TOOLS \<and> tcs \<noteq> []"
  by (auto simp: after_llm_def should_continue_def last_tool_calls_def conditional_edges_def
           split: if_splits)

lemma call_tool_step:
  assumes "call_tool env ms w = (Inr out, w1)" and "last_tool_calls ms = Inr tcs" and "tcs \<noteq> []"
  shows "tool_step ms (ms @ out)"
proof -
  from assms(1,2) have "call_tool_loop env tcs [] w = (Inr out, w1)"
    by (simp add: call_tool_def)
  from call_tool_loop_outputs [OF this]
  have "map tool_message_id out = map (\<lambda>tc. Some (tc_id tc)) tcs"
    by simp
  with assms(2,3) show ?thesis
    by (simp add: tool_step_def)
qed

lemma run_graph_follows:
  "run_graph env n node ms w = ((sts, r), w') \<Longrightarrow>
   (node = TOOLS \<longrightarrow> (\<exists>tcs. last_tool_calls ms = Inr tcs \<and> tcs \<noteq> [])) \<Longrightarrow>
   follows node ms sts"
proof (induction n arbitrary: node ms w sts r w')
  case 0
  then show ?case by simp
next
  case (Suc n)
  show ?case
  proof (cases node)
    case END
    with Suc.prems show ?thesis by simp
  next
    case LLM
    show ?thesis
    proof (cases "call_model env ms w")
      case (Pair res w1)
      show ?thesis
      proof (cases res)
        case (Inl e)
        with Pair LLM Suc.prems show ?thesis by simp
      next
        case (Inr out)
        with Pair call_model_out obtain c tcs where out: "out = [AIMessage c tcs]"
          by blast
        have step: "model_step ms (ms @ [AIMessage c tcs])"
          by (simp add: model_step_def)
        show ?thesis
        proof (cases "after_llm (ms @ [AIMessage c tcs])")
          case (Inl e)
          with Pair Inr out LLM Suc.prems have "sts = [ms @ [AIMessage c tcs]]"
            by simp
          with step LLM show ?thesis by simp
        next
          case al: (Inr nxt)
          with Pair Inr out LLM Suc.prems obtain rest where
            rec: "run_graph env n nxt (ms @ [AIMessage c tcs]) w1 = ((rest, r), w')" and
            sts: "sts = (ms @ [AIMessage c tcs]) # rest"
            by (auto split: prod.splits)
          from after_llm_cases [OF al] have
            "nxt = TOOLS \<longrightarrow> (\<exists>tcs'. last_tool_calls (ms @ [AIMessage c tcs]) = Inr tcs' \<and> tcs' \<noteq> [])"
            by (auto simp: last_tool_calls_def)
          from Suc.IH [OF rec this] have fol: "follows nxt (ms @ [AIMessage c tcs]) rest" .
          have "follows TOOLS (ms @ [AIMessage c tcs]) rest"
          proof (cases "nxt = TOOLS")
            case True
            with fol show ?thesis by simp
          next
            case False
            with after_llm_cases [OF al] have "nxt = END" by blast
            with fol have "rest = []" by (cases rest) simp_all
            then show ?thesis by simp
          qed
          with step sts LLM show ?thesis by simp
        qed
      qed
    qed
  next
    case TOOLS
    with Suc.prems(2) obtain tcs where tcs: "last_tool_calls ms = Inr tcs" "tcs \<noteq> []"
      by blast
    show ?thesis
    proof (cases "call_tool env ms w")
      case (Pair res w1)
      show ?thesis
      proof (cases res)
        case (Inl e)
        with Pair TOOLS Suc.prems show ?thesis by simp
      next
        case (Inr out)
        with Pair TOOLS Suc.prems obtain rest where
          rec: "run_graph env n LLM (ms @ out) w1 = ((rest, r), w')" and
          sts: "sts = (ms @ out) # rest"
          by (auto simp: after_tools_def split: prod.splits)
        from Suc.IH [OF rec] have "follows LLM (ms @ out) rest" by simp
        moreover from Pair Inr have "tool_step ms (ms @ out)"
          using call_tool_step [OF _ tcs] by simp
        ultimately show ?thesis using sts TOOLS by simp
      qed
    qed
  qed
qed

text \<open>So every state after a node ends in a model response or in a tool result.\<close>

lemma follows_last:
  "follows node before sts \<Longrightarrow> s \<in> set sts \<Longrightarrow>
   s \<noteq> [] \<and> (case last s of AIMessage c tcs \<Rightarrow> True | ToolMessage c n i \<Rightarrow> True | _ \<Rightarrow> False)"
proof (induction sts arbitrary: node before)
  case Nil
  then show ?case by simp
next
  case (Cons a sts)
  show ?case
  proof (cases node)
    case END
    with Cons.prems show ?thesis by simp
  next
    case LLM
    with Cons.prems have step: "model_step before a" and rest: "follows TOOLS a sts"
      by simp_all
    show ?thesis
    proof (cases "s = a")
      case True
      with step show ?thesis
        by (auto simp: model_step_def split: message.splits)
    next
      case False
      with Cons.prems(2) have "s \<in> set sts" by simp
      from Cons.IH [OF rest this] show ?thesis .
    qed
  next
    case TOOLS
    with Cons.prems have step: "tool_step before a" and rest: "follows LLM a sts"
      by simp_all
    show ?thesis
    proof (cases "s = a")
      case True
      from step obtain tcs where lt: "last_tool_calls before = Inr tcs"
        by (cases "last_tool_calls before") (simp_all add: tool_step_def)
      with step have tcs: "tcs \<noteq> []" and
        ids: "map tool_message_id (drop (length before) a) = map (\<lambda>tc. Some (tc_id tc)) tcs"
        by (simp_all add: tool_step_def)
      from ids tcs have ne: "drop (length before) a \<noteq> []"
        by auto
      then have lt': "length before < length a"
        by simp
      then have a: "a \<noteq> []" and la: "last a = last (drop (length before) a)"
        by (auto simp: last_drop)
      from ne have "last (drop (length before) a) \<in> set (drop (length before) a)"
        by (rule last_in_set)
      with la have "tool_message_id (last a) \<in> set (map tool_message_id (drop (length before) a))"
        by (simp del: last_drop)
      with ids obtain i where "tool_message_id (last a) = Some i"
        by auto
      with a True show ?thesis
        by (cases "last a") simp_all
    next
      case False
      with Cons.prems(2) have "s \<in> set sts" by simp
      from Cons.IH [OF rest this] show ?thesis .
    qed
  qed
qed

section \<open>C1: a statement that is not a SELECT is refused\<close>

text \<open>
  C1. Whenever the type of the first parsed statement, in lower case, is not
  \<^verbatim>\<open>select\<close>, both query tools return the payload
  \<^verbatim>\<open>{"error": "Only read-only queries are supported"}\<close> and leave the world as it
  was: no connection is opened and the database is not touched.
\<close>

theorem non_select_rejected:
  assumes "sqlparse_types env query = t # ts" and "lower t \<noteq> ''select''"
  shows "execute_titanic_sql_query env query w = (Inr read_only_error, w) \<and>
         execute_finance_sql_query env query w = (Inr read_only_error, w)"
  using assms by (simp add: execute_titanic_sql_query_def execute_finance_sql_query_def)

theorem non_select_rejected_witness:
  "sqlparse_types stub_env ''DROP TABLE transactions'' = [''DROP''] \<and>
   lower ''DROP'' \<noteq> ''select'' \<and>
   execute_titanic_sql_query stub_env ''DROP TABLE transactions'' idle = (Inr read_only_error, idle) \<and>
   execute_finance_sql_query stub_env ''DROP TABLE transactions'' idle = (Inr read_only_error, idle)"
proof -
  have types: "sqlparse_types stub_env ''DROP TABLE transactions'' = ''DROP'' # []"
    by (simp add: stub_env_def)
  have other: "lower ''DROP'' \<noteq> ''select''"
    by (simp add: lower_def lower_char_def)
  from non_select_rejected [OF types other, of idle] types other show ?thesis by simp
qed

section \<open>C2: the loop ends exactly when the model asks for no tool\<close>

text \<open>
  LangGraph's own guard: a run that has no step left raises, whatever node is next.
\<close>

lemma run_graph_out_of_steps:
  "run_graph env 0 node ms w =
     (([], Some (Exn GraphRecursionError ''Recursion limit reached without hitting a stop condition'')), w)"
  by simp



section \<open>C3: one tool message per request, in order\<close>

text \<open>
  C3 (amended). Whenever the tool node returns, it returns exactly one tool message
  per request of the last AI message, in the order of the requests, each with the
  identifier and the tool name of its request.
\<close>

theorem call_tool_one_result_per_request:
  assumes "call_tool env (ms @ [AIMessage c tcs]) w = (Inr outputs, w')"
  shows "length outputs = length tcs \<and>
         map tool_message_id outputs = map (\<lambda>tc. Some (tc_id tc)) tcs \<and>
         map tool_message_name outputs = map (\<lambda>tc. Some (tc_name tc)) tcs"
proof -
  from assms have "call_tool_loop env tcs [] w = (Inr outputs, w')"
    by (simp add: call_tool_def last_tool_calls_def)
  from call_tool_loop_outputs [OF this] have
    ids: "map tool_message_id outputs = map (\<lambda>tc. Some (tc_id tc)) tcs" and
    names: "map tool_message_name outputs = map (\<lambda>tc. Some (tc_name tc)) tcs"
    by auto
  from ids have "length outputs = length tcs"
    by (rule map_eq_imp_length_eq)
  with ids names show ?thesis by simp
qed

theorem call_tool_one_result_per_request_witness:
  "call_tool stub_env ([HumanMessage (JStr ''hi'')] @ [AIMessage (JStr []) two_calls]) idle =
     (Inr [ToolMessage (JStr ''{error: ...}'') ''execute_finance_sql_query'' ''call_a'',
           ToolMessage (JStr ''{result: ...}'') ''execute_titanic_sql_query'' ''call_b''],
      idle\<lparr>conn_count := 1\<rparr>) \<and>
   map tool_message_id
     [ToolMessage (JStr ''{error: ...}'') ''execute_finance_sql_query'' ''call_a'',
      ToolMessage (JStr ''{result: ...}'') ''execute_titanic_sql_query'' ''call_b'']
     = map (\<lambda>tc. Some (tc_id tc)) two_calls"
proof -
  have run: "call_tool stub_env ([HumanMessage (JStr ''hi'')] @ [AIMessage (JStr []) two_calls]) idle =
     (Inr [ToolMessage (JStr ''{error: ...}'') ''execute_finance_sql_query'' ''call_a'',
           ToolMessage (JStr ''{result: ...}'') ''execute_titanic_sql_query'' ''call_b''],
      idle\<lparr>conn_count := 1\<rparr>)"
    by (simp add: two_calls_def stub_env_def idle_def tool_defs)
  from call_tool_one_result_per_request [OF run] run show ?thesis by simp
qed

text \<open>
  C3 as stated fails: a request whose query names a missing table makes the tool node
  raise, and no tool message comes back for the request.
\<close>

theorem call_tool_failed_query_counterexample:
  "call_tool stub_env
     [HumanMessage (JStr ''hi''),
      AIMessage (JStr [])
        [\<lparr>tc_name = ''execute_titanic_sql_query'',
          tc_args = [(''query'', JStr ''SELECT * FROM missing'')], tc_id = ''call_1''\<rparr>]] idle
   = (Inl (Exn DatabaseError ''no such table: missing''), idle\<lparr>open_conns := [0], conn_count := 1\<rparr>)"
  by (simp add: stub_env_def idle_def tool_defs)

section \<open>C4: a tool call that raises ends the batch\<close>

text \<open>
  C4 (amended). A failure that the tool itself returns as a payload is carried by a
  tool message like any other result, and the loop goes on with the next call of the
  batch. When a call raises instead (a name that is not in the tool table, arguments
  that fail the schema, an exception the tool lets through), the tool node raises the
  same exception: the calls before it are lost, the calls after it are not made (the
  world is the one the failing call left), and the run of the graph ends with that
  exception.
\<close>

theorem call_tool_failure_aborts_batch:
  "(tools_by_name (tc_name tc) = Some t \<and> tool_invoke env t (tc_args tc) w = (Inr payload, w1) \<longrightarrow>
      call_tool_loop env (tc # post) outputs w =
        call_tool_loop env post
          (outputs @ [ToolMessage (JStr (str_of env payload)) (tc_name tc) (tc_id tc)]) w1) \<and>
   (call_tool_loop env pre [] v = (Inr done, v1) \<and>
    (tools_by_name (tc_name tc) = None \<and> e = Exn KeyError ([CHR 0x27] @ tc_name tc @ [CHR 0x27]) \<and> v2 = v1 \<or>
     tools_by_name (tc_name tc) = Some t \<and> tool_invoke env t (tc_args tc) v1 = (Inl e, v2)) \<longrightarrow>
      call_tool env (ms @ [AIMessage c (pre @ tc # post)]) v = (Inl e, v2) \<and>
      run_graph env (Suc n) TOOLS (ms @ [AIMessage c (pre @ tc # post)]) v = (([], Some e), v2))"
proof -
  have ok: "call_tool_loop env (tc # post) outputs w =
        call_tool_loop env post
          (outputs @ [ToolMessage (JStr (str_of env payload)) (tc_name tc) (tc_id tc)]) w1"
    if "tools_by_name (tc_name tc) = Some t" "tool_invoke env t (tc_args tc) w = (Inr payload, w1)"
    using that by simp
  have bad: "call_tool env (ms @ [AIMessage c (pre @ tc # post)]) v = (Inl e, v2)"
    if "call_tool_loop env pre [] v = (Inr done, v1)"
       "tools_by_name (tc_name tc) = None \<and> e = Exn KeyError ([CHR 0x27] @ tc_name tc @ [CHR 0x27]) \<and> v2 = v1 \<or>
        tools_by_name (tc_name tc) = Some t \<and> tool_invoke env t (tc_args tc) v1 = (Inl e, v2)"
  proof -
    have "call_tool_loop env (tc # post) done v1 = (Inl e, v2)"
      using that(2) by auto
    then have "call_tool_loop env (pre @ tc # post) [] v = (Inl e, v2)"
      using that(1) by (simp add: call_tool_loop_append)
    then show ?thesis
      by (simp add: call_tool_def last_tool_calls_def)
  qed
  have run: "run_graph env (Suc n) TOOLS (ms @ [AIMessage c (pre @ tc # post)]) v = (([], Some e), v2)"
    if "call_tool env (ms @ [AIMessage c (pre @ tc # post)]) v = (Inl e, v2)"
    using that by simp
  show ?thesis
    using ok bad run by blast
qed

theorem call_tool_failure_aborts_batch_witness:
  "tools_by_name ''execute_finance_sql_query'' = Some ExecuteFinanceSqlQuery \<and>
   tool_invoke stub_env ExecuteFinanceSqlQuery [(''query'', JStr ''DROP TABLE transactions'')] idle
     = (Inr read_only_error, idle) \<and>
   call_tool_loop stub_env
     [\<lparr>tc_name = ''execute_finance_sql_query'',
       tc_args = [(''query'', JStr ''DROP TABLE transactions'')], tc_id = ''call_a''\<rparr>,
      \<lparr>tc_name = ''get_table_names'', tc_args = [], tc_id = ''call_b''\<rparr>] [] idle
     = call_tool_loop stub_env [\<lparr>tc_name = ''get_table_names'', tc_args = [], tc_id = ''call_b''\<rparr>]
         [ToolMessage (JStr ''{error: ...}'') ''execute_finance_sql_query'' ''call_a''] idle \<and>
   call_tool_loop stub_env [] [] idle = (Inr [], idle) \<and>
   tools_by_name ''execute_titanic_sql_query'' = Some ExecuteTitanicSqlQuery \<and>
   tool_invoke stub_env ExecuteTitanicSqlQuery [] idle
     = (Inl (Exn ValidationError ''query: Field required''), idle) \<and>
   call_tool stub_env
     [AIMessage (JStr [])
        [\<lparr>tc_name = ''execute_titanic_sql_query'', tc_args = [], tc_id = ''call_a''\<rparr>,
         \<lparr>tc_name = ''get_table_names'', tc_args = [], tc_id = ''call_b''\<rparr>]] idle
     = (Inl (Exn ValidationError ''query: Field required''), idle)"
proof -
  have name1: "tools_by_name ''execute_finance_sql_query'' = Some ExecuteFinanceSqlQuery"
    by (simp add: tools_by_name_def tools_def)
  have inv1: "tool_invoke stub_env ExecuteFinanceSqlQuery [(''query'', JStr ''DROP TABLE transactions'')] idle
     = (Inr read_only_error, idle)"
    by (simp add: stub_env_def str_arg_def execute_finance_sql_query_def lower_def lower_char_def)
  have pre: "call_tool_loop stub_env [] [] idle = (Inr [], idle)"
    by simp
  have name2: "tools_by_name ''execute_titanic_sql_query'' = Some ExecuteTitanicSqlQuery"
    by (simp add: tools_by_name_def tools_def)
  have inv2: "tool_invoke stub_env ExecuteTitanicSqlQuery [] idle
     = (Inl (Exn ValidationError ''query: Field required''), idle)"
    by (simp add: str_arg_def)
  have str: "str_of stub_env read_only_error = ''{error: ...}''"
    by (simp add: str_of_def stub_env_def read_only_error_def)
  from call_tool_failure_aborts_batch
         [of "\<lparr>tc_name = ''execute_finance_sql_query'',
               tc_args = [(''query'', JStr ''DROP TABLE transactions'')], tc_id = ''call_a''\<rparr>"
             ExecuteFinanceSqlQuery stub_env idle read_only_error idle
             "[\<lparr>tc_name = ''get_table_names'', tc_args = [], tc_id = ''call_b''\<rparr>]" "[]"
             "[]" idle "[]" idle "Exn ValidationError ''query: Field required''" idle "[]" "JStr []" 0]
       name1 inv1
  have first: "call_tool_loop stub_env
     [\<lparr>tc_name = ''execute_finance_sql_query'',
       tc_args = [(''query'', JStr ''DROP TABLE transactions'')], tc_id = ''call_a''\<rparr>,
      \<lparr>tc_name = ''get_table_names'', tc_args = [], tc_id = ''call_b''\<rparr>] [] idle
     = call_tool_loop stub_env [\<lparr>tc_name = ''get_table_names'', tc_args = [], tc_id = ''call_b''\<rparr>]
         [ToolMessage (JStr ''{error: ...}'') ''execute_finance_sql_query'' ''call_a''] idle"
    by (simp add: str)
  from call_tool_failure_aborts_batch
         [of "\<lparr>tc_name = ''execute_titanic_sql_query'', tc_args = [], tc_id = ''call_a''\<rparr>"
             ExecuteTitanicSqlQuery stub_env idle read_only_error idle
             "[\<lparr>tc_name = ''get_table_names'', tc_args = [], tc_id = ''call_b''\<rparr>]" "[]"
             "[]" idle "[]" idle "Exn ValidationError ''query: Field required''" idle "[]" "JStr []" 0]
       pre name2 inv2
  have second: "call_tool stub_env
     [AIMessage (JStr [])
        [\<lparr>tc_name = ''execute_titanic_sql_query'', tc_args = [], tc_id = ''call_a''\<rparr>,
         \<lparr>tc_name = ''get_table_names'', tc_args = [], tc_id = ''call_b''\<rparr>]] idle
     = (Inl (Exn ValidationError ''query: Field required''), idle)"
    by simp
  from name1 inv1 first pre name2 inv2 second show ?thesis by simp
qed

text \<open>
  C4 as stated fails: the first call of this batch has no \<^verbatim>\<open>query\<close> argument. The tool
  node raises the validation error, and the second call is never made: no connection
  has been opened.
\<close>

theorem call_tool_validation_error_counterexample:
  "call_tool stub_env [HumanMessage (JStr ''hi''), AIMessage (JStr []) bad_then_good] idle
     = (Inl (Exn ValidationError ''query: Field required''), idle) \<and>
   call_tool stub_env [HumanMessage (JStr ''hi''), AIMessage (JStr []) (tl bad_then_good)] idle
     = (Inr [ToolMessage (JStr ''{result: ...}'') ''execute_titanic_sql_query'' ''call_b''],
        idle\<lparr>conn_count := 1\<rparr>)"
  by (simp add: bad_then_good_def stub_env_def idle_def tool_defs)

section \<open>C5: what the query tools let through\<close>

text \<open>
  C5. The two query tools are not total. On the empty text \<^verbatim>\<open>sqlparse.parse\<close> returns no
  statement and the index \<^verbatim>\<open>[0]\<close> raises; on a \<^verbatim>\<open>SELECT\<close> from a missing table the
  error of \<^verbatim>\<open>cursor.execute\<close> leaves the tool. \<open>get_table_columns\<close> on the same kind of
  failure returns an error payload.
\<close>

theorem query_tools_raise:
  "execute_titanic_sql_query stub_env [] idle = (Inl (Exn IndexError ''tuple index out of range''), idle) \<and>
   execute_finance_sql_query stub_env [] idle = (Inl (Exn IndexError ''tuple index out of range''), idle) \<and>
   fst (execute_titanic_sql_query stub_env ''SELECT * FROM missing'' idle)
     = Inl (Exn DatabaseError ''no such table: missing'') \<and>
   fst (execute_finance_sql_query stub_env ''SELECT * FROM missing'' idle)
     = Inl (Exn DatabaseError ''no such table: missing'') \<and>
   fst (get_table_columns stub_env ''missing'' idle)
     = Inr (JObj [(''error'', JStr ''Failed to get table columns: no such table: missing'')])"
  by (simp add: stub_env_def idle_def tool_defs get_table_columns_def)

section \<open>C6: the connection is closed when the query succeeds\<close>

text \<open>
  C6 (amended). When a query tool returns for a text classified as \<^verbatim>\<open>SELECT\<close>, it has
  opened exactly one connection and closed it again: the open connections are the ones
  that were open before the call. When the call ends with an exception, either
  \<^verbatim>\<open>connect\<close> itself failed and the world is as before, or the connection opened for the
  call is still open.
\<close>

theorem select_closes_connection_on_return:
  assumes "f = execute_titanic_sql_query \<or> f = execute_finance_sql_query"
    and "sqlparse_types env query = t # ts" and "lower t = ''select''"
  shows "(f env query w = (Inr r, w') \<longrightarrow>
            open_conns w' = open_conns w \<and> conn_count w' = Suc (conn_count w)) \<and>
         (f env query w = (Inl e, w'') \<longrightarrow>
            w'' = w \<or>
            open_conns w'' = conn_count w # open_conns w \<and> conn_count w'' = Suc (conn_count w))"
  using assms
  by (auto simp: execute_titanic_sql_query_def execute_finance_sql_query_def connect_def
        execute_fetchall_def conn_close_def split: option.splits prod.splits sum.splits)

theorem select_closes_connection_on_return_witness:
  "sqlparse_types stub_env ''SELECT 1'' = [''SELECT''] \<and> lower ''SELECT'' = ''select'' \<and>
   execute_titanic_sql_query stub_env ''SELECT 1'' idle
     = (Inr (JObj [(''result'', JArr [JArr [JNum 1]])]), idle\<lparr>conn_count := 1\<rparr>) \<and>
   open_conns (idle\<lparr>conn_count := 1\<rparr>) = open_conns idle \<and>
   conn_count (idle\<lparr>conn_count := 1\<rparr>) = Suc (conn_count idle) \<and>
   sqlparse_types stub_env ''SELECT * FROM absent'' = [''SELECT''] \<and>
   execute_titanic_sql_query stub_env ''SELECT * FROM absent'' idle
     = (Inl (Exn DatabaseError ''no such table: missing''), idle\<lparr>open_conns := [0], conn_count := 1\<rparr>) \<and>
   open_conns (idle\<lparr>open_conns := [0], conn_count := 1\<rparr>) = conn_count idle # open_conns idle"
proof -
  have types: "sqlparse_types stub_env ''SELECT 1'' = ''SELECT'' # []"
    by (simp add: stub_env_def)
  have types': "sqlparse_types stub_env ''SELECT * FROM absent'' = ''SELECT'' # []"
    by (simp add: stub_env_def)
  have sel: "lower ''SELECT'' = ''select''"
    by (simp add: lower_def lower_char_def)
  have run: "execute_titanic_sql_query stub_env ''SELECT 1'' idle
     = (Inr (JObj [(''result'', JArr [JArr [JNum 1]])]), idle\<lparr>conn_count := 1\<rparr>)"
    by (simp add: stub_env_def idle_def tool_defs)
  have run': "execute_titanic_sql_query stub_env ''SELECT * FROM absent'' idle
     = (Inl (Exn DatabaseError ''no such table: missing''), idle\<lparr>open_conns := [0], conn_count := 1\<rparr>)"
    by (simp add: stub_env_def idle_def tool_defs)
  have differs: "idle\<lparr>open_conns := [0], conn_count := 1\<rparr> \<noteq> idle"
    by (simp add: idle_def)
  from select_closes_connection_on_return
         [OF disjI1 [OF refl] types sel, of idle "JObj [(''result'', JArr [JArr [JNum 1]])]"
             "idle\<lparr>conn_count := 1\<rparr>"]
       select_closes_connection_on_return
         [OF disjI1 [OF refl] types' sel, of idle JNull idle "Exn DatabaseError ''no such table: missing''"
             "idle\<lparr>open_conns := [0], conn_count := 1\<rparr>"]
       types types' sel run run' differs
  show ?thesis by simp
qed

text \<open>
  C6 as stated fails: when \<^verbatim>\<open>cursor.execute\<close> raises, the call ends with its connection
  still open.
\<close>

theorem select_leaves_connection_open_counterexample:
  "sqlparse_types stub_env ''SELECT * FROM missing'' = [''SELECT''] \<and>
   execute_finance_sql_query stub_env ''SELECT * FROM missing'' idle
     = (Inl (Exn DatabaseError ''no such table: missing''), idle\<lparr>open_conns := [0], conn_count := 1\<rparr>) \<and>
   open_conns (idle\<lparr>open_conns := [0], conn_count := 1\<rparr>) \<noteq> open_conns idle"
  by (simp add: stub_env_def idle_def tool_defs)

section \<open>C7: an empty message is refused\<close>

text \<open>
  C7. When the body is a JSON object whose \<^verbatim>\<open>message\<close> is absent or falsy (the empty
  string above all), the answer is status 400 with
  \<^verbatim>\<open>{"error": "No message provided"}\<close>, and the world is as before: the model was not
  invoked and no tool was run.
\<close>

theorem empty_message_rejected:
  assumes "map_of kvs ''message'' = None \<or> (\<exists>v. map_of kvs ''message'' = Some v \<and> \<not> truthy v)"
  shows "chat env (Inr (JObj kvs)) w = ((400, JObj [(''error'', JStr ''No message provided'')]), w)"
  using assms by (auto simp: chat_def split: option.splits)

theorem empty_message_rejected_witness:
  "map_of [(''message'', JStr []), (''conversation_history'', JArr [])] ''message'' = Some (JStr []) \<and>
   \<not> truthy (JStr []) \<and>
   chat stub_env (Inr (JObj [(''message'', JStr []), (''conversation_history'', JArr [])])) idle
     = ((400, JObj [(''error'', JStr ''No message provided'')]), idle) \<and>
   chat stub_env (Inr (JObj [])) idle
     = ((400, JObj [(''error'', JStr ''No message provided'')]), idle)"
proof -
  have empty: "map_of [(''message'', JStr []), (''conversation_history'', JArr [])] ''message'' = None \<or>
     (\<exists>v. map_of [(''message'', JStr []), (''conversation_history'', JArr [])] ''message'' = Some v \<and> \<not> truthy v)"
    by simp
  have absent: "map_of ([] :: (string \<times> json) list) ''message'' = None \<or>
     (\<exists>v. map_of ([] :: (string \<times> json) list) ''message'' = Some v \<and> \<not> truthy v)"
    by simp
  from empty_message_rejected [OF empty, of stub_env idle]
       empty_message_rejected [OF absent, of stub_env idle]
  show ?thesis by simp
qed

section \<open>C8: the recovery pass\<close>

text \<open>
  Once the run of the recovery pass ends without an exception, the response it collects
  is never empty (given that \<^verbatim>\<open>str()\<close> of a truthy content is not empty, as in Python):
  the input state is streamed first and its last message is the synthetic message. The
  branch of \<open>recover\<close> that answers 500 for an empty response is not reached.
\<close>

lemma recovery_response_never_empty:
  assumes "\<forall>j. truthy j \<longrightarrow> str_of env j \<noteq> []"
    and "graph_stream env [(''user'', JStr (error_context u e))] w = ((states, None), w1)"
  shows "collect_retry env states [] \<noteq> []"
proof -
  from assms(2) obtain sts where states: "states = [HumanMessage (JStr (error_context u e))] # sts"
    by (auto simp: graph_stream_def convert_to_message_def split: sum.splits prod.splits)
  then have ne: "collected_contents env states \<noteq> []"
    by (simp add: collected_contents_def shown_def error_context_nonempty)
  then have "last (collected_contents env states) \<in> set (collected_contents env states)"
    by simp
  then obtain ms where "shown ms" "last (collected_contents env states) = str_of env (content (last ms))"
    by (auto simp: collected_contents_def)
  with assms(1) have "last (collected_contents env states) \<noteq> []"
    by (simp add: shown_def)
  with ne show ?thesis
    by (simp add: collect_retry_eq)
qed

text \<open>
  What the endpoint answers when the first run raises: 500 with the first error if the
  recovery run raises too, and the apology with the final answer of the recovery run
  if that answer is a non-empty string.
\<close>

lemma chat_recovery_pass:
  assumes "map_of kvs ''message'' = Some um" and "truthy um"
    and "convert_history (case map_of kvs ''conversation_history'' of None \<Rightarrow> JArr [] | Some h \<Rightarrow> h)
           = Inr prior"
    and "graph_stream env (prior @ [(''user'', um)]) w = ((states, Some e), w1)"
    and "graph_stream env [(''user'', JStr (error_context (str_of env um) (str_exn e)))]
           (w1\<lparr>now_calls := now_calls w1 + length (collected_contents env states)\<rparr>)
           = ((retry_states, r), w2)"
  shows "(r \<noteq> None \<longrightarrow> chat env (Inr (JObj kvs)) w = (server_error (str_exn e), w2)) \<and>
         (r = None \<longrightarrow>
            (\<exists>c. last (last retry_states) = AIMessage c [] \<and>
                 (\<forall>s. c = JStr s \<and> s \<noteq> [] \<longrightarrow>
                    chat env (Inr (JObj kvs)) w =
                      ((200, JObj [(''response'', JStr (apology @ s)),
                                   (''all_messages'', JArr [agent_entry s (now_iso env (now_calls w2))])]),
                       w2\<lparr>now_calls := Suc (now_calls w2)\<rparr>))))"
proof -
  have unfold: "chat env (Inr (JObj kvs)) w =
      recover env e (Some um) (w1\<lparr>now_calls := now_calls w1 + length (collected_contents env states)\<rparr>)"
    using assms(1-4) by (simp add: chat_def collect_eq split: option.splits)
  have failed: "chat env (Inr (JObj kvs)) w = (server_error (str_exn e), w2)" if "r \<noteq> None"
    using that assms(5) by (auto simp: unfold recover_def)
  have answered: "\<exists>c. last (last retry_states) = AIMessage c [] \<and>
                 (\<forall>s. c = JStr s \<and> s \<noteq> [] \<longrightarrow>
                    chat env (Inr (JObj kvs)) w =
                      ((200, JObj [(''response'', JStr (apology @ s)),
                                   (''all_messages'', JArr [agent_entry s (now_iso env (now_calls w2))])]),
                       w2\<lparr>now_calls := Suc (now_calls w2)\<rparr>))" if "r = None"
  proof -
    from that assms(5) have run: "graph_stream env [(''user'', JStr (error_context (str_of env um) (str_exn e)))]
           (w1\<lparr>now_calls := now_calls w1 + length (collected_contents env states)\<rparr>)
           = ((retry_states, None), w2)"
      by simp
    from graph_stream_done [OF run] obtain c where
      ne: "retry_states \<noteq> []" "last retry_states \<noteq> []" and fin: "last (last retry_states) = AIMessage c []"
      by auto
    have "chat env (Inr (JObj kvs)) w =
            ((200, JObj [(''response'', JStr (apology @ s)),
                         (''all_messages'', JArr [agent_entry s (now_iso env (now_calls w2))])]),
             w2\<lparr>now_calls := Suc (now_calls w2)\<rparr>)" if "c = JStr s" "s \<noteq> []" for s
    proof -
      from that ne fin have "shown (last retry_states)" by (simp add: shown_def)
      from collected_contents_last [OF ne(1) this, of env] fin that
      have "collect_retry env retry_states [] = s"
        by (simp add: collect_retry_eq str_of_def)
      with run that show ?thesis
        by (simp add: unfold recover_def Let_def)
    qed
    with fin show ?thesis by blast
  qed
  from failed answered show ?thesis by blast
qed

text \<open>
  C8. The model fails on the first call of the request and answers the recovery pass
  with an empty message. The recovery pass has produced nothing, yet the answer is
  status 200: the apology followed by the synthetic message itself.
\<close>

theorem recovery_with_empty_answer_returns_200:
  "chat silent_env (Inr (JObj [(''message'', JStr ''hi'')])) idle =
     ((200, JObj [(''response'', JStr (apology @ error_context ''hi'' ''quota exceeded'')),
                  (''all_messages'',
                     JArr [agent_entry (error_context ''hi'' ''quota exceeded'') ''i''])]),
      idle\<lparr>llm_calls := 2, now_calls := 2\<rparr>)"
proof -
  have primary: "graph_stream silent_env ([] @ [(''user'', JStr ''hi'')]) idle =
     (([[HumanMessage (JStr ''hi'')]], Some (Exn ModelInvocationError ''quota exceeded'')),
      idle\<lparr>llm_calls := 1\<rparr>)"
    by (simp add: silent_env_def stub_env_def idle_def graph_defs eval_nat_numeral)
  have retry: "graph_stream silent_env [(''user'', JStr (error_context ''hi'' ''quota exceeded''))]
                  (idle\<lparr>llm_calls := 1, now_calls := 1\<rparr>) =
     (([[HumanMessage (JStr (error_context ''hi'' ''quota exceeded''))],
        [HumanMessage (JStr (error_context ''hi'' ''quota exceeded'')), AIMessage (JStr []) []]], None),
      idle\<lparr>llm_calls := 2, now_calls := 1\<rparr>)"
    by (simp add: silent_env_def stub_env_def idle_def graph_defs last_tool_calls_def eval_nat_numeral)
  have "idle\<lparr>llm_calls := 1\<rparr>\<lparr>now_calls := 1\<rparr> = idle\<lparr>llm_calls := 1, now_calls := 1\<rparr>"
    by simp
  with primary retry show ?thesis
    by (simp add: chat_def recover_def convert_history_def str_of_def error_context_nonempty
          stub_env_sel idle_sel Let_def numeral_2_eq_2)
qed

section \<open>C9: what a successful request returns\<close>

text \<open>
  C9 (amended). On a request with a message, a history that converts and a run that
  ends without an exception, the answer is status 200. The states yielded after the
  nodes of the run have the shape \<open>follows\<close>: each ends in a model response or in the
  last tool result of a dispatched batch. \<^verbatim>\<open>all_messages\<close> ends with exactly one entry of
  type \<^verbatim>\<open>agent\<close> for every such state whose last message has content, tool results
  included, in the order of the stream, each with the reading of the clock taken when
  it was collected. Whenever the final AI message has content, it makes the last entry
  and \<^verbatim>\<open>response\<close> is its content. What is collected for the input state, which is
  streamed before any node has run, is not part of the statement.
\<close>

theorem chat_success_collects_node_states:
  assumes "map_of kvs ''message'' = Some um" and "truthy um"
    and "convert_history (case map_of kvs ''conversation_history'' of None \<Rightarrow> JArr [] | Some h \<Rightarrow> h)
           = Inr prior"
    and "graph_stream env (prior @ [(''user'', um)]) w = ((states, None), w1)"
  shows "\<exists>ms0 sts echo resp c.
           states = ms0 # sts \<and> follows LLM ms0 sts \<and>
           (\<forall>s \<in> set sts. s \<noteq> [] \<and>
              (case last s of AIMessage c tcs \<Rightarrow> True | ToolMessage c n i \<Rightarrow> True | _ \<Rightarrow> False)) \<and>
           length echo \<le> 1 \<and>
           chat env (Inr (JObj kvs)) w =
             ((200, JObj [(''response'', JStr resp),
                          (''all_messages'',
                             JArr (echo @ stamp env (now_calls w1 + length echo)
                                            (collected_contents env sts)))]),
              w1\<lparr>now_calls := now_calls w1 + length echo + length (collected_contents env sts)\<rparr>) \<and>
           (\<forall>i < length (collected_contents env sts).
              stamp env (now_calls w1 + length echo) (collected_contents env sts) ! i =
                agent_entry (collected_contents env sts ! i)
                  (now_iso env (now_calls w1 + length echo + i))) \<and>
           last (last sts) = AIMessage c [] \<and>
           (truthy c \<longrightarrow> resp = str_of env c \<and> collected_contents env sts \<noteq> [] \<and>
                          last (collected_contents env sts) = str_of env c)"
proof -
  from assms(4) obtain ms0 sts where
    conv: "convert_to_messages (prior @ [(''user'', um)]) = Inr ms0" and
    run: "run_graph env (recursion_limit env) LLM ms0 w = ((sts, None), w1)" and
    states: "states = ms0 # sts"
    by (auto simp: graph_stream_def split: sum.splits prod.splits)
  from convert_to_messages_last [OF conv] have ms0: "ms0 \<noteq> []" "last ms0 = HumanMessage um"
    by simp_all
  with assms(2) have first: "shown ms0" by (simp add: shown_def)
  then have cc: "collected_contents env states = str_of env um # collected_contents env sts"
    using ms0 by (simp add: collected_contents_def states)
  from run_graph_follows [OF run] have fol: "follows LLM ms0 sts" by simp
  from follows_last [OF fol] have lasts: "\<forall>s \<in> set sts. s \<noteq> [] \<and>
      (case last s of AIMessage c tcs \<Rightarrow> True | ToolMessage c n i \<Rightarrow> True | _ \<Rightarrow> False)"
    by blast
  from run_graph_done [OF run] obtain c where
    sts: "sts \<noteq> []" "last sts \<noteq> []" and fin: "last (last sts) = AIMessage c []"
    by auto
  define echo where "echo = [agent_entry (str_of env um) (now_iso env (now_calls w1))]"
  define resp where "resp = last (collected_contents env states)"
  have answer: "chat env (Inr (JObj kvs)) w =
             ((200, JObj [(''response'', JStr resp),
                          (''all_messages'',
                             JArr (echo @ stamp env (now_calls w1 + length echo)
                                            (collected_contents env sts)))]),
              w1\<lparr>now_calls := now_calls w1 + length echo + length (collected_contents env sts)\<rparr>)"
    using assms by (simp add: chat_def collect_eq cc echo_def resp_def split: option.splits)
  have final: "resp = str_of env c \<and> collected_contents env sts \<noteq> [] \<and>
               last (collected_contents env sts) = str_of env c" if "truthy c"
  proof -
    from that sts fin have "shown (last sts)" by (simp add: shown_def)
    from collected_contents_last [OF sts(1) this, of env] fin
    have "collected_contents env sts \<noteq> []" "last (collected_contents env sts) = str_of env c"
      by simp_all
    then show ?thesis by (simp add: resp_def cc)
  qed
  have stamps: "\<forall>i < length (collected_contents env sts).
              stamp env (now_calls w1 + length echo) (collected_contents env sts) ! i =
                agent_entry (collected_contents env sts ! i)
                  (now_iso env (now_calls w1 + length echo + i))"
    by (simp add: stamp_nth)
  have "length echo \<le> 1" by (simp add: echo_def)
  with states fol lasts answer stamps fin final show ?thesis by blast
qed

theorem chat_success_collects_node_states_witness:
  "map_of [(''message'', JStr ''How many?'')] ''message'' = Some (JStr ''How many?'') \<and>
   truthy (JStr ''How many?'') \<and>
   convert_history (JArr []) = Inr [] \<and>
   graph_stream stub_env [(''user'', JStr ''How many?'')] (idle\<lparr>llm_calls := 1\<rparr>) =
     (([[HumanMessage (JStr ''How many?'')],
        [HumanMessage (JStr ''How many?''), AIMessage (JStr ''One.'') []]], None),
      idle\<lparr>llm_calls := 2\<rparr>) \<and>
   follows LLM [HumanMessage (JStr ''How many?'')]
     [[HumanMessage (JStr ''How many?''), AIMessage (JStr ''One.'') []]] \<and>
   collected_contents stub_env [[HumanMessage (JStr ''How many?''), AIMessage (JStr ''One.'') []]]
     = [''One.''] \<and>
   (\<exists>echo w'. chat stub_env (Inr (JObj [(''message'', JStr ''How many?'')])) (idle\<lparr>llm_calls := 1\<rparr>) =
     ((200, JObj [(''response'', JStr ''One.''),
                  (''all_messages'',
                     JArr (echo @ stamp stub_env (length echo) [''One.'']))]), w'))"
proof -
  have msg: "map_of [(''message'', JStr ''How many?'')] ''message'' = Some (JStr ''How many?'')"
    by simp
  have tr: "truthy (JStr ''How many?'')"
    by simp
  have hist: "convert_history (case map_of [(''message'', JStr ''How many?'')] ''conversation_history'' of
                 None \<Rightarrow> JArr [] | Some h \<Rightarrow> h) = Inr []"
    by (simp add: convert_history_def)
  have run: "graph_stream stub_env ([] @ [(''user'', JStr ''How many?'')]) (idle\<lparr>llm_calls := 1\<rparr>) =
     (([[HumanMessage (JStr ''How many?'')],
        [HumanMessage (JStr ''How many?''), AIMessage (JStr ''One.'') []]], None),
      idle\<lparr>llm_calls := 2\<rparr>)"
    by (simp add: stub_env_def idle_def graph_defs last_tool_calls_def eval_nat_numeral)
  have cs: "collected_contents stub_env [[HumanMessage (JStr ''How many?''), AIMessage (JStr ''One.'') []]]
              = [''One.'']"
    by (simp add: collected_contents_def shown_def str_of_def)
  from chat_success_collects_node_states [OF msg tr hist run] obtain ms0 sts echo resp c where
    st: "[[HumanMessage (JStr ''How many?'')],
          [HumanMessage (JStr ''How many?''), AIMessage (JStr ''One.'') []]] = ms0 # sts" and
    fol: "follows LLM ms0 sts" and
    ans: "chat stub_env (Inr (JObj [(''message'', JStr ''How many?'')])) (idle\<lparr>llm_calls := 1\<rparr>) =
            ((200, JObj [(''response'', JStr resp),
                         (''all_messages'',
                            JArr (echo @ stamp stub_env (now_calls (idle\<lparr>llm_calls := 2\<rparr>) + length echo)
                                           (collected_contents stub_env sts)))]),
             idle\<lparr>llm_calls := 2\<rparr>
               \<lparr>now_calls := now_calls (idle\<lparr>llm_calls := 2\<rparr>) + length echo
                               + length (collected_contents stub_env sts)\<rparr>)" and
    fin: "last (last sts) = AIMessage c []" and
    resp: "truthy c \<longrightarrow> resp = str_of stub_env c"
    by blast
  from st have ms0: "ms0 = [HumanMessage (JStr ''How many?'')]"
    and sts: "sts = [[HumanMessage (JStr ''How many?''), AIMessage (JStr ''One.'') []]]"
    by simp_all
  from fin sts have "c = JStr ''One.''" by simp
  with resp have "resp = ''One.''" by (simp add: str_of_def)
  with ans sts cs have "chat stub_env (Inr (JObj [(''message'', JStr ''How many?'')])) (idle\<lparr>llm_calls := 1\<rparr>) =
     ((200, JObj [(''response'', JStr ''One.''),
                  (''all_messages'', JArr (echo @ stamp stub_env (length echo) [''One.'']))]),
      idle\<lparr>llm_calls := 2\<rparr>\<lparr>now_calls := now_calls (idle\<lparr>llm_calls := 2\<rparr>) + length echo + 1\<rparr>)"
    by (simp add: idle_sel)
  then have "\<exists>echo w'. chat stub_env (Inr (JObj [(''message'', JStr ''How many?'')])) (idle\<lparr>llm_calls := 1\<rparr>) =
     ((200, JObj [(''response'', JStr ''One.''),
                  (''all_messages'', JArr (echo @ stamp stub_env (length echo) [''One.'']))]), w')"
    by blast
  moreover from fol ms0 sts have "follows LLM [HumanMessage (JStr ''How many?'')]
     [[HumanMessage (JStr ''How many?''), AIMessage (JStr ''One.'') []]]"
    by simp
  ultimately show ?thesis
    using msg tr hist run cs by (simp add: convert_history_def)
qed

text \<open>
  C9 as stated fails. In this run the model produces two AI messages, one without
  content (it carries the tool call) and the final answer. The collected list has
  three entries: the user's question and the tool result are among them.
\<close>

theorem chat_collects_user_and_tool_messages_counterexample:
  "graph_stream stub_env [(''user'', JStr ''How many?'')] idle =
     (([[HumanMessage (JStr ''How many?'')],
        [HumanMessage (JStr ''How many?''),
         AIMessage (JStr []) [\<lparr>tc_name = ''execute_titanic_sql_query'',
                          tc_args = [(''query'', JStr ''SELECT 1'')], tc_id = ''call_1''\<rparr>]],
        [HumanMessage (JStr ''How many?''),
         AIMessage (JStr []) [\<lparr>tc_name = ''execute_titanic_sql_query'',
                          tc_args = [(''query'', JStr ''SELECT 1'')], tc_id = ''call_1''\<rparr>],
         ToolMessage (JStr ''{result: ...}'') ''execute_titanic_sql_query'' ''call_1''],
        [HumanMessage (JStr ''How many?''),
         AIMessage (JStr []) [\<lparr>tc_name = ''execute_titanic_sql_query'',
                          tc_args = [(''query'', JStr ''SELECT 1'')], tc_id = ''call_1''\<rparr>],
         ToolMessage (JStr ''{result: ...}'') ''execute_titanic_sql_query'' ''call_1'',
         AIMessage (JStr ''One.'') []]], None),
      idle\<lparr>conn_count := 1, llm_calls := 2\<rparr>) \<and>
   chat stub_env (Inr (JObj [(''message'', JStr ''How many?'')])) idle =
     ((200, JObj [(''response'', JStr ''One.''),
                  (''all_messages'',
                     JArr [agent_entry ''How many?'' [],
                           agent_entry ''{result: ...}'' ''i'',
                           agent_entry ''One.'' ''ii''])]),
      idle\<lparr>conn_count := 1, llm_calls := 2, now_calls := 3\<rparr>)"
proof -
  have run: "graph_stream stub_env [(''user'', JStr ''How many?'')] idle =
     (([[HumanMessage (JStr ''How many?'')],
        [HumanMessage (JStr ''How many?''),
         AIMessage (JStr []) [\<lparr>tc_name = ''execute_titanic_sql_query'',
                          tc_args = [(''query'', JStr ''SELECT 1'')], tc_id = ''call_1''\<rparr>]],
        [HumanMessage (JStr ''How many?''),
         AIMessage (JStr []) [\<lparr>tc_name = ''execute_titanic_sql_query'',
                          tc_args = [(''query'', JStr ''SELECT 1'')], tc_id = ''call_1''\<rparr>],
         ToolMessage (JStr ''{result: ...}'') ''execute_titanic_sql_query'' ''call_1''],
        [HumanMessage (JStr ''How many?''),
         AIMessage (JStr []) [\<lparr>tc_name = ''execute_titanic_sql_query'',
                          tc_args = [(''query'', JStr ''SELECT 1'')], tc_id = ''call_1''\<rparr>],
         ToolMessage (JStr ''{result: ...}'') ''execute_titanic_sql_query'' ''call_1'',
         AIMessage (JStr ''One.'') []]], None),
      idle\<lparr>conn_count := 1, llm_calls := 2\<rparr>)"
    by (simp add: stub_env_def idle_def graph_defs tool_defs eval_nat_numeral)
  then show ?thesis
    by (simp add: chat_def convert_history_def str_of_def stub_env_sel idle_sel)
qed

section \<open>C10: history entries of another type are dropped\<close>

text \<open>
  C10. A history entry that has a \<^verbatim>\<open>type\<close> other than \<^verbatim>\<open>"user"\<close> and \<^verbatim>\<open>"agent"\<close> changes
  nothing: the converted history, errors included, is the one of the history without
  the entry, and so is the whole answer of the endpoint.
\<close>

theorem unknown_history_type_dropped:
  assumes "subscript entry ''type'' = Inr t" and "t \<noteq> JStr ''user''" and "t \<noteq> JStr ''agent''"
  shows "convert_history (JArr (before @ entry # after)) = convert_history (JArr (before @ after)) \<and>
         chat env (Inr (JObj [(''message'', um), (''conversation_history'', JArr (before @ entry # after))])) w
           = chat env (Inr (JObj [(''message'', um), (''conversation_history'', JArr (before @ after))])) w"
proof -
  have step: "convert_history_loop (entry # after) acc = convert_history_loop after acc" for acc
    using assms by simp
  have "convert_history_loop (before @ entry # after) [] = convert_history_loop (before @ after) []"
    unfolding convert_history_loop_append
    by (cases "convert_history_loop before []") (simp_all only: sum.case step)
  then have conv: "convert_history (JArr (before @ entry # after)) = convert_history (JArr (before @ after))"
    by (simp add: convert_history_def)
  then show ?thesis
    by (simp add: chat_def)
qed

theorem unknown_history_type_dropped_witness:
  "subscript (JObj [(''type'', JStr ''system''), (''content'', JStr ''be brief'')]) ''type'' = Inr (JStr ''system'') \<and>
   convert_history (JArr ([JObj [(''type'', JStr ''user''), (''content'', JStr ''hello'')]] @
                           JObj [(''type'', JStr ''system''), (''content'', JStr ''be brief'')] #
                          [JObj [(''type'', JStr ''agent''), (''content'', JStr ''hi'')]]))
     = Inr [(''user'', JStr ''hello''), (''assistant'', JStr ''hi'')]"
proof -
  have ty: "subscript (JObj [(''type'', JStr ''system''), (''content'', JStr ''be brief'')]) ''type'' = Inr (JStr ''system'')"
    by simp
  have rest: "convert_history (JArr ([JObj [(''type'', JStr ''user''), (''content'', JStr ''hello'')]] @
                          [JObj [(''type'', JStr ''agent''), (''content'', JStr ''hi'')]]))
     = Inr [(''user'', JStr ''hello''), (''assistant'', JStr ''hi'')]"
    by (simp add: convert_history_def)
  from unknown_history_type_dropped [OF ty, of "[JObj [(''type'', JStr ''user''), (''content'', JStr ''hello'')]]"
         "[JObj [(''type'', JStr ''agent''), (''content'', JStr ''hi'')]]" stub_env "JStr ''q''" idle] ty rest
  show ?thesis by simp
qed

end
